theory Spec2Isabelle
  imports Main "HOL-Library.Word" "HOL-Library.Signed_Division"
begin

section \<open>The linear congruential generator of \<open>08-extension-types.ipynb\<close>\<close>

text \<open>
  The notebook defines the generator twice: \<open>PyLCG\<close>, a plain Python class whose
  attributes are unbounded Python integers, and \<open>CyLCG\<close>, a Cython extension type
  whose attributes are C \<open>long\<close> (8 bytes in the notebook's own memory count).
  Both are embedded below, method by method.

  Python integers are \<open>int\<close>. Python's \<open>%\<close> on integers rounds towards minus
  infinity and takes the sign of the divisor, as \<open>mod\<close> on \<open>int\<close> does; for a zero
  divisor Python raises \<open>ZeroDivisionError\<close> where HOL returns the dividend, so the
  model tests for it.

  The record fields carry a prefix (\<open>py_a\<close> for \<open>self.a\<close> of \<open>PyLCG\<close>, \<open>cy_a\<close> for
  \<open>self.a\<close> of \<open>CyLCG\<close>): the two classes use the same four attribute names.
\<close>

subsection \<open>Errors and returned values\<close>

text \<open>
  \<open>ValueError\<close> is raised by both constructors and by \<open>np.empty\<close> on a negative
  dimension, \<open>ZeroDivisionError\<close> by Python's \<open>%\<close>, \<open>OverflowError\<close> by Cython
  when a Python integer does not fit the C type of the variable it is assigned to.
\<close>

datatype py_error = ValueError | ZeroDivisionError | OverflowError

text \<open>
  \<open>randint\<close> returns one integer when \<open>size\<close> is \<open>None\<close> and an array otherwise.
  An array is modelled by the list of the numbers its elements hold.
\<close>

datatype py_value = Scalar int | Array "int list"

subsection \<open>Integer ranges and \<open>np.asarray\<close>\<close>

text \<open>The ranges of a C \<open>long\<close> (numpy's \<open>int64\<close>) and of a C \<open>int\<close>.\<close>

definition fits_long :: "int \<Rightarrow> bool" where
  "fits_long k = (- (2 ^ 63) \<le> k \<and> k < 2 ^ 63)"

definition fits_int :: "int \<Rightarrow> bool" where
  "fits_int k = (- (2 ^ 31) \<le> k \<and> k < 2 ^ 31)"

text \<open>
  \<open>np.asarray\<close> of a list of Python integers chooses one element type for the
  whole array. Each integer is taken as \<open>int64\<close> if it fits, else as \<open>uint64\<close> if
  it is below \<open>2 ^ 64\<close>, else as a Python object, and the array gets the common
  type: \<open>int64\<close> when all fit it, \<open>uint64\<close> when all need it, \<open>object\<close> as soon as
  one integer is outside both, and \<open>float64\<close> when \<open>int64\<close> and \<open>uint64\<close> meet.
  Only in the last case does an element change: it becomes the nearest \<open>float64\<close>.

  A \<open>float64\<close> has 53 significant bits. \<open>ulp_exp n\<close> is the number of bits
  that \<open>n \<ge> 0\<close> has beyond 53, and \<open>float64_of_int\<close> rounds them away: to the
  nearest multiple of \<open>2 ^ ulp_exp \<bar>v\<bar>\<close>, and to the even one on a tie. The
  result is the number the \<open>float64\<close> holds, which is an integer.
\<close>

function ulp_exp :: "int \<Rightarrow> nat" where
  "ulp_exp n = (if n < 2 ^ 53 then 0 else Suc (ulp_exp (n div 2)))"
  by pat_completeness auto
termination
  by (relation "measure nat") auto

declare ulp_exp.simps [simp del]

definition float64_of_int :: "int \<Rightarrow> int" where
  "float64_of_int v =
     (let n = \<bar>v\<bar>; u = 2 ^ ulp_exp n; q = n div u; r = n mod u
      in sgn v *
         (if 2 * r < u then q * u
          else if u < 2 * r then (q + 1) * u
          else if even q then q * u
          else (q + 1) * u))"

definition promotes_to_float64 :: "int list \<Rightarrow> bool" where
  "promotes_to_float64 rs =
     (\<not> list_all fits_long rs \<and>
      \<not> list_ex (\<lambda>v. v < - (2 ^ 63) \<or> 2 ^ 64 \<le> v) rs \<and>
      \<not> list_all (\<lambda>v. 2 ^ 63 \<le> v) rs)"

definition np_asarray :: "int list \<Rightarrow> int list" where
  "np_asarray rs = (if promotes_to_float64 rs then map float64_of_int rs else rs)"

subsection \<open>\<open>PyLCG\<close>\<close>

record PyLCG =
  py_a :: int
  py_c :: int
  py_m :: int
  py_x :: int

text \<open>\<open>PyLCG.__init__(self, a, c, m, seed)\<close>: raises when \<open>m <= 0\<close>.\<close>

definition PyLCG_init :: "int \<Rightarrow> int \<Rightarrow> int \<Rightarrow> int \<Rightarrow> py_error + PyLCG" where
  "PyLCG_init a c m seed =
     (if m \<le> 0 then Inl ValueError
      else Inr \<lparr>py_a = a, py_c = c, py_m = m, py_x = seed\<rparr>)"

text \<open>The defaults of the keyword arguments, shared by both constructors.\<close>

definition default_a :: int where "default_a = 1664525"
definition default_c :: int where "default_c = 1013904223"
definition default_m :: int where "default_m = 2 ^ 32"
definition default_seed :: int where "default_seed = 0"

text \<open>
  \<open>PyLCG._advance(self)\<close>: reads \<open>self.x\<close> into \<open>r\<close>, assigns
  \<open>(self.a * self.x + self.c) % self.m\<close> to \<open>self.x\<close>, returns \<open>r\<close>.
  The result is the returned value and the object after the call.
\<close>

definition PyLCG_advance :: "PyLCG \<Rightarrow> py_error + (int \<times> PyLCG)" where
  "PyLCG_advance s =
     (if py_m s = 0 then Inl ZeroDivisionError
      else Inr (py_x s, s\<lparr>py_x := (py_a s * py_x s + py_c s) mod py_m s\<rparr>))"

text \<open>
  The list comprehension \<open>[self._advance() for _ in range(size)]\<close>, as recursion
  on the number of iterations left. An exception in an iteration ends the loop.
\<close>

fun PyLCG_advance_n :: "nat \<Rightarrow> PyLCG \<Rightarrow> py_error + (int list \<times> PyLCG)" where
  "PyLCG_advance_n 0 s = Inr ([], s)"
| "PyLCG_advance_n (Suc n) s =
     (case PyLCG_advance s of
        Inl e \<Rightarrow> Inl e
      | Inr (r, s') \<Rightarrow>
          (case PyLCG_advance_n n s' of
             Inl e \<Rightarrow> Inl e
           | Inr (rs, s'') \<Rightarrow> Inr (r # rs, s'')))"

text \<open>
  \<open>PyLCG.randint(self, size=None)\<close>. \<open>range(size)\<close> is empty for a negative
  \<open>size\<close>, which is what \<open>nat\<close> gives. The argument \<open>size\<close> is written
  \<open>sz\<close>. The list goes through \<open>np.asarray\<close>.
\<close>

definition PyLCG_randint :: "PyLCG \<Rightarrow> int option \<Rightarrow> py_error + (py_value \<times> PyLCG)" where
  "PyLCG_randint s sz =
     (case sz of
        None \<Rightarrow>
          (case PyLCG_advance s of
             Inl e \<Rightarrow> Inl e
           | Inr (r, s') \<Rightarrow> Inr (Scalar r, s'))
      | Some n \<Rightarrow>
          (case PyLCG_advance_n (nat n) s of
             Inl e \<Rightarrow> Inl e
           | Inr (rs, s') \<Rightarrow> Inr (Array (np_asarray rs), s')))"

subsection \<open>\<open>CyLCG\<close>\<close>

text \<open>
  \<open>cdef long a, c, m, x\<close>: four C \<open>long\<close>, 64 bits wide and signed. A \<open>long\<close> is
  a \<open>64 word\<close>, read as a signed number by \<open>sint\<close>. \<open>+\<close> and \<open>*\<close> on words wrap
  around, as two's complement hardware does; C leaves signed overflow undefined,
  and no property below is stated at an input where \<open>a * x + c\<close> overflows.
\<close>

type_synonym long = "64 word"

record CyLCG =
  cy_a :: long
  cy_c :: long
  cy_m :: long
  cy_x :: long

text \<open>
  Cython converts a Python integer argument to the C type of the parameter and
  raises \<open>OverflowError\<close> when it does not fit (\<open>fits_long\<close>, \<open>fits_int\<close>).
\<close>

text \<open>
  \<open>CyLCG.__cinit__(self, long a, long c, long m, long seed)\<close>: the arguments are
  converted first, then the body runs; \<open>m <= 0\<close> compares C \<open>long\<close>.
\<close>

definition CyLCG_cinit :: "int \<Rightarrow> int \<Rightarrow> int \<Rightarrow> int \<Rightarrow> py_error + CyLCG" where
  "CyLCG_cinit a c m seed =
     (if \<not> (fits_long a \<and> fits_long c \<and> fits_long m \<and> fits_long seed)
      then Inl OverflowError
      else if sint (word_of_int m :: long) \<le> 0 then Inl ValueError
      else Inr \<lparr>cy_a = word_of_int a, cy_c = word_of_int c,
                cy_m = word_of_int m, cy_x = word_of_int seed\<rparr>)"

text \<open>
  Under \<open>@cython.cdivision(True)\<close> the operator \<open>%\<close> on two \<open>long\<close> is C's: the
  remainder of the division that truncates towards zero, with the sign of the
  dividend. That is \<open>smod\<close> on \<open>int\<close>, \<open>sgn k * (\<bar>k\<bar> mod \<bar>l\<bar>)\<close>.
\<close>

definition c_rem :: "long \<Rightarrow> long \<Rightarrow> long" where
  "c_rem u v = word_of_int (sint u smod sint v)"

text \<open>
  \<open>CyLCG._advance(self)\<close>. No check precedes the \<open>%\<close>; the attributes are not
  visible from Python, so \<open>self.m\<close> keeps the positive value \<open>__cinit__\<close> stored.
\<close>

definition CyLCG_advance :: "CyLCG \<Rightarrow> long \<times> CyLCG" where
  "CyLCG_advance s =
     (cy_x s, s\<lparr>cy_x := c_rem (cy_a s * cy_x s + cy_c s) (cy_m s)\<rparr>)"

text \<open>The loop \<open>for i in range(n): a[i] = self._advance()\<close>.\<close>

fun CyLCG_advance_n :: "nat \<Rightarrow> CyLCG \<Rightarrow> long list \<times> CyLCG" where
  "CyLCG_advance_n 0 s = ([], s)"
| "CyLCG_advance_n (Suc n) s =
     (case CyLCG_advance s of
        (r, s') \<Rightarrow>
          (case CyLCG_advance_n n s' of
             (rs, s'') \<Rightarrow> (r # rs, s'')))"

text \<open>
  \<open>CyLCG.randint(self, size=None)\<close>. With a \<open>size\<close>, \<open>np.empty((size,), dtype='i8')\<close>
  raises \<open>ValueError\<close> on a negative dimension and on one whose 8-byte elements
  would take \<open>2 ^ 63\<close> bytes or more, that is from \<open>2 ^ 60\<close> elements on; then
  \<open>cdef int n = int(size)\<close> raises \<open>OverflowError\<close> when \<open>size\<close> does not fit a C
  \<open>int\<close>. Whether the machine has the memory for the array is not modelled. The
  array is an \<open>int64\<close> array that the loop fills, so \<open>np.asarray\<close> changes nothing;
  a \<open>long\<close> that goes back to Python is the integer \<open>sint\<close> reads.
\<close>

definition CyLCG_randint :: "CyLCG \<Rightarrow> int option \<Rightarrow> py_error + (py_value \<times> CyLCG)" where
  "CyLCG_randint s sz =
     (case sz of
        None \<Rightarrow>
          (case CyLCG_advance s of
             (r, s') \<Rightarrow> Inr (Scalar (sint r), s'))
      | Some n \<Rightarrow>
          if n < 0 \<or> 2 ^ 60 \<le> n then Inl ValueError
          else if \<not> fits_int n then Inl OverflowError
          else
            (case CyLCG_advance_n (nat n) s of
               (rs, s') \<Rightarrow> Inr (Array (map sint rs), s')))"

subsection \<open>Sequences of calls\<close>

text \<open>
  A client calls \<open>_advance()\<close>, \<open>randint()\<close> or \<open>randint(size=n)\<close>, in any order.
\<close>

datatype call = Advance | Randint "int option"

definition PyLCG_call :: "PyLCG \<Rightarrow> call \<Rightarrow> py_error + (py_value \<times> PyLCG)" where
  "PyLCG_call s k =
     (case k of
        Advance \<Rightarrow>
          (case PyLCG_advance s of
             Inl e \<Rightarrow> Inl e
           | Inr (r, s') \<Rightarrow> Inr (Scalar r, s'))
      | Randint sz \<Rightarrow> PyLCG_randint s sz)"

fun PyLCG_run :: "PyLCG \<Rightarrow> call list \<Rightarrow> py_error + (py_value list \<times> PyLCG)" where
  "PyLCG_run s [] = Inr ([], s)"
| "PyLCG_run s (k # ks) =
     (case PyLCG_call s k of
        Inl e \<Rightarrow> Inl e
      | Inr (v, s') \<Rightarrow>
          (case PyLCG_run s' ks of
             Inl e \<Rightarrow> Inl e
           | Inr (vs, s'') \<Rightarrow> Inr (v # vs, s'')))"

definition CyLCG_call :: "CyLCG \<Rightarrow> call \<Rightarrow> py_error + (py_value \<times> CyLCG)" where
  "CyLCG_call s k =
     (case k of
        Advance \<Rightarrow>
          (case CyLCG_advance s of
             (r, s') \<Rightarrow> Inr (Scalar (sint r), s'))
      | Randint sz \<Rightarrow> CyLCG_randint s sz)"

fun CyLCG_run :: "CyLCG \<Rightarrow> call list \<Rightarrow> py_error + (py_value list \<times> CyLCG)" where
  "CyLCG_run s [] = Inr ([], s)"
| "CyLCG_run s (k # ks) =
     (case CyLCG_call s k of
        Inl e \<Rightarrow> Inl e
      | Inr (v, s') \<Rightarrow>
          (case CyLCG_run s' ks of
             Inl e \<Rightarrow> Inl e
           | Inr (vs, s'') \<Rightarrow> Inr (v # vs, s'')))"

text \<open>The integers a list of results holds, in the order they were produced.\<close>

fun ints_of :: "py_value \<Rightarrow> int list" where
  "ints_of (Scalar r) = [r]"
| "ints_of (Array rs) = rs"

definition returned :: "py_value list \<Rightarrow> int list" where
  "returned vs = concat (map ints_of vs)"

text \<open>
  What the caller of \<open>PyLCG\<close> receives for the values \<open>_advance\<close> produced during
  a call: the value itself from \<open>_advance()\<close> and \<open>randint()\<close>, the array
  \<open>np.asarray\<close> makes of them from \<open>randint(size=n)\<close>.
\<close>

fun stored :: "py_value \<Rightarrow> py_value" where
  "stored (Scalar r) = Scalar r"
| "stored (Array rs) = Array (np_asarray rs)"

text \<open>Construct a \<open>PyLCG\<close>, make the calls, collect every integer returned.\<close>

definition PyLCG_outputs :: "int \<Rightarrow> int \<Rightarrow> int \<Rightarrow> int \<Rightarrow> call list \<Rightarrow> py_error + int list" where
  "PyLCG_outputs a c m seed ks =
     (case PyLCG_init a c m seed of
        Inl e \<Rightarrow> Inl e
      | Inr g \<Rightarrow>
          (case PyLCG_run g ks of
             Inl e \<Rightarrow> Inl e
           | Inr (vs, g') \<Rightarrow> Inr (returned vs)))"

definition CyLCG_outputs :: "int \<Rightarrow> int \<Rightarrow> int \<Rightarrow> int \<Rightarrow> call list \<Rightarrow> py_error + int list" where
  "CyLCG_outputs a c m seed ks =
     (case CyLCG_cinit a c m seed of
        Inl e \<Rightarrow> Inl e
      | Inr g \<Rightarrow>
          (case CyLCG_run g ks of
             Inl e \<Rightarrow> Inl e
           | Inr (vs, g') \<Rightarrow> Inr (returned vs)))"

text \<open>
  The sizes \<open>CyLCG.randint\<close> accepts: \<open>size\<close> omitted, or from 0 to the largest C
  \<open>int\<close>.
\<close>

fun size_ok :: "call \<Rightarrow> bool" where
  "size_ok Advance = True"
| "size_ok (Randint None) = True"
| "size_ok (Randint (Some n)) = (0 \<le> n \<and> n < 2 ^ 31)"

definition in_range :: "int \<Rightarrow> int \<Rightarrow> bool" where
  "in_range m v = (0 \<le> v \<and> v < m)"

text \<open>How many times a call runs \<open>_advance\<close>.\<close>

fun advances_of :: "call \<Rightarrow> nat" where
  "advances_of Advance = 1"
| "advances_of (Randint None) = 1"
| "advances_of (Randint (Some n)) = nat n"

definition n_advances :: "call list \<Rightarrow> nat" where
  "n_advances ks = sum_list (map advances_of ks)"

text \<open>
  The relation between a \<open>PyLCG\<close> and a \<open>CyLCG\<close> that were both constructed with
  the default \<open>a\<close>, \<open>c\<close> and \<open>m\<close> and have made the same calls: the same
  parameters, the same state, and the state below \<open>2 ^ 32\<close>.
\<close>

definition sim_default :: "PyLCG \<Rightarrow> CyLCG \<Rightarrow> bool" where
  "sim_default p q =
     (py_a p = default_a \<and> py_c p = default_c \<and> py_m p = default_m \<and>
      cy_a q = word_of_int default_a \<and> cy_c q = word_of_int default_c \<and>
      cy_m q = word_of_int default_m \<and>
      in_range default_m (py_x p) \<and> cy_x q = word_of_int (py_x p))"

section \<open>Properties\<close>

subsection \<open>Facts about \<open>np.asarray\<close>\<close>

lemma length_np_asarray: "length (np_asarray rs) = length rs"
  by (simp add: np_asarray_def)

lemma np_asarray_exact:
  "\<not> promotes_to_float64 rs \<Longrightarrow> np_asarray rs = rs"
  by (simp add: np_asarray_def)

lemma np_asarray_fits_long:
  "list_all fits_long rs \<Longrightarrow> np_asarray rs = rs"
  by (simp add: np_asarray_def promotes_to_float64_def)

lemma in_range_fits_long:
  "in_range m v \<Longrightarrow> m \<le> 2 ^ 63 \<Longrightarrow> fits_long v"
  by (simp add: in_range_def fits_long_def)

lemma list_all_in_range_fits_long:
  "list_all (in_range m) rs \<Longrightarrow> m \<le> 2 ^ 63 \<Longrightarrow> list_all fits_long rs"
  by (induction rs) (auto dest: in_range_fits_long)

lemma stored_fits_long:
  "list_all fits_long (returned ws) \<Longrightarrow> map stored ws = ws"
proof (induction ws)
  case Nil
  then show ?case by simp
next
  case (Cons w ws)
  from Cons.prems have w: "list_all fits_long (ints_of w)"
    and ws: "list_all fits_long (returned ws)"
    by (simp_all add: returned_def)
  have "stored w = w"
    using w by (cases w) (simp_all add: np_asarray_fits_long)
  with Cons.IH [OF ws] show ?case by simp
qed

lemma length_returned_stored:
  "length (returned (map stored ws)) = length (returned ws)"
proof (induction ws)
  case Nil
  then show ?case by simp
next
  case (Cons w ws)
  have "length (ints_of (stored w)) = length (ints_of w)"
    by (cases w) (simp_all add: length_np_asarray)
  with Cons.IH show ?case by (simp add: returned_def)
qed

lemma Scalar_in_stored:
  "Scalar r \<in> set (map stored ws) \<Longrightarrow> r \<in> set (returned ws)"
proof (induction ws)
  case Nil
  then show ?case by simp
next
  case (Cons w ws)
  show ?case
  proof (cases "Scalar r = stored w")
    case True
    then have "w = Scalar r" by (cases w) simp_all
    then show ?thesis by (simp add: returned_def)
  next
    case False
    with Cons.prems have "Scalar r \<in> set (map stored ws)" by simp
    from Cons.IH [OF this] show ?thesis by (simp add: returned_def)
  qed
qed

subsection \<open>Facts about \<open>PyLCG\<close>\<close>

lemma PyLCG_advance_Inr:
  "py_m s \<noteq> 0 \<Longrightarrow>
   PyLCG_advance s = Inr (py_x s, s\<lparr>py_x := (py_a s * py_x s + py_c s) mod py_m s\<rparr>)"
  by (simp add: PyLCG_advance_def)

lemma PyLCG_init_Inr:
  "0 < m \<Longrightarrow> PyLCG_init a c m seed = Inr \<lparr>py_a = a, py_c = c, py_m = m, py_x = seed\<rparr>"
  by (simp add: PyLCG_init_def)

lemma PyLCG_advance_frame:
  "PyLCG_advance s = Inr (r, s') \<Longrightarrow>
   r = py_x s \<and> s' = s\<lparr>py_x := (py_a s * py_x s + py_c s) mod py_m s\<rparr>"
  by (auto simp: PyLCG_advance_def split: if_splits)

lemma PyLCG_advance_n_total:
  "py_m s \<noteq> 0 \<Longrightarrow>
   \<exists>rs s'. PyLCG_advance_n n s = Inr (rs, s') \<and> length rs = n \<and>
     py_a s' = py_a s \<and> py_c s' = py_c s \<and> py_m s' = py_m s"
proof (induction n arbitrary: s)
  case 0
  then show ?case by simp
next
  case (Suc n)
  let ?t = "s\<lparr>py_x := (py_a s * py_x s + py_c s) mod py_m s\<rparr>"
  have "py_m ?t \<noteq> 0" using Suc.prems by simp
  from Suc.IH [OF this] obtain rs s' where
    "PyLCG_advance_n n ?t = Inr (rs, s')" "length rs = n"
    "py_a s' = py_a ?t" "py_c s' = py_c ?t" "py_m s' = py_m ?t"
    by blast
  then show ?case using Suc.prems
    by (simp add: PyLCG_advance_Inr)
qed

lemma PyLCG_advance_n_length:
  "PyLCG_advance_n n s = Inr (rs, s') \<Longrightarrow> length rs = n"
  by (induction n arbitrary: s rs) (auto split: sum.splits)

lemma PyLCG_advance_n_frame:
  "PyLCG_advance_n n s = Inr (rs, s') \<Longrightarrow> s' = s\<lparr>py_x := py_x s'\<rparr>"
proof (induction n arbitrary: s rs)
  case 0
  then show ?case by simp
next
  case (Suc n)
  from Suc.prems obtain r s1 rs1 where
    a: "PyLCG_advance s = Inr (r, s1)" and n: "PyLCG_advance_n n s1 = Inr (rs1, s')"
    by (auto split: sum.splits)
  from PyLCG_advance_frame [OF a]
  have s1: "s1 = s\<lparr>py_x := (py_a s * py_x s + py_c s) mod py_m s\<rparr>" by simp
  from Suc.IH [OF n] have "s' = s1\<lparr>py_x := py_x s'\<rparr>" .
  then show ?case by (subst (asm) s1) simp
qed

lemma PyLCG_advance_n_range:
  "0 < py_m s \<Longrightarrow> in_range (py_m s) (py_x s) \<Longrightarrow> PyLCG_advance_n n s = Inr (rs, s') \<Longrightarrow>
   list_all (in_range (py_m s)) rs \<and> in_range (py_m s) (py_x s')"
proof (induction n arbitrary: s rs)
  case 0
  then show ?case by simp
next
  case (Suc n)
  let ?t = "s\<lparr>py_x := (py_a s * py_x s + py_c s) mod py_m s\<rparr>"
  have m: "py_m s \<noteq> 0" using Suc.prems(1) by simp
  from Suc.prems(3) obtain rs' where
    run: "PyLCG_advance_n n ?t = Inr (rs', s')" and rs: "rs = py_x s # rs'"
    by (auto simp: PyLCG_advance_Inr [OF m] split: sum.splits)
  have "0 < py_m ?t" "in_range (py_m ?t) (py_x ?t)"
    using Suc.prems(1) by (simp_all add: in_range_def)
  from Suc.IH [OF this run] show ?case
    using Suc.prems(2) rs by simp
qed

lemma PyLCG_advance_n_first:
  assumes "0 < py_m s" and "PyLCG_advance_n (Suc n) s = Inr (rs, s')"
  shows "\<exists>rest. rs = py_x s # rest \<and> list_all (in_range (py_m s)) rest \<and>
           in_range (py_m s) (py_x s')"
proof -
  let ?t = "s\<lparr>py_x := (py_a s * py_x s + py_c s) mod py_m s\<rparr>"
  have m: "py_m s \<noteq> 0" using assms(1) by simp
  from assms(2) obtain rs' where
    run: "PyLCG_advance_n n ?t = Inr (rs', s')" and rs: "rs = py_x s # rs'"
    by (auto simp: PyLCG_advance_Inr [OF m] split: sum.splits)
  have "0 < py_m ?t" "in_range (py_m ?t) (py_x ?t)"
    using assms(1) by (simp_all add: in_range_def)
  from PyLCG_advance_n_range [OF this run] show ?thesis
    using rs by simp
qed

lemma PyLCG_advance_n_add:
  "PyLCG_advance_n (i + j) s =
     (case PyLCG_advance_n i s of
        Inl e \<Rightarrow> Inl e
      | Inr (rs, s') \<Rightarrow>
          (case PyLCG_advance_n j s' of
             Inl e \<Rightarrow> Inl e
           | Inr (rs', s'') \<Rightarrow> Inr (rs @ rs', s'')))"
  by (induction i arbitrary: s) (auto split: sum.splits)

lemma PyLCG_call_as_advance_n:
  assumes m: "py_m s \<noteq> 0"
  shows "\<exists>w s'. PyLCG_call s k = Inr (stored w, s') \<and>
     PyLCG_advance_n (advances_of k) s = Inr (ints_of w, s') \<and> py_m s' = py_m s"
proof (cases k)
  case Advance
  let ?t = "s\<lparr>py_x := (py_a s * py_x s + py_c s) mod py_m s\<rparr>"
  have "PyLCG_call s k = Inr (stored (Scalar (py_x s)), ?t)"
    using Advance by (simp add: PyLCG_call_def PyLCG_advance_Inr [OF m])
  moreover have "PyLCG_advance_n (advances_of k) s = Inr (ints_of (Scalar (py_x s)), ?t)"
    using Advance by (simp add: PyLCG_advance_Inr [OF m])
  ultimately show ?thesis by (intro exI [of _ "Scalar (py_x s)"] exI [of _ ?t]) simp
next
  case (Randint sz)
  show ?thesis
  proof (cases sz)
    case None
    let ?t = "s\<lparr>py_x := (py_a s * py_x s + py_c s) mod py_m s\<rparr>"
    have "PyLCG_call s k = Inr (stored (Scalar (py_x s)), ?t)"
      using Randint None
      by (simp add: PyLCG_call_def PyLCG_randint_def PyLCG_advance_Inr [OF m])
    moreover have "PyLCG_advance_n (advances_of k) s = Inr (ints_of (Scalar (py_x s)), ?t)"
      using Randint None by (simp add: PyLCG_advance_Inr [OF m])
    ultimately show ?thesis by (intro exI [of _ "Scalar (py_x s)"] exI [of _ ?t]) simp
  next
    case (Some n)
    from PyLCG_advance_n_total [OF m, of "nat n"] obtain rs s' where
      n: "PyLCG_advance_n (nat n) s = Inr (rs, s')" and m': "py_m s' = py_m s"
      by blast
    have "PyLCG_call s k = Inr (stored (Array rs), s')"
      using Randint Some n by (simp add: PyLCG_call_def PyLCG_randint_def)
    moreover have "PyLCG_advance_n (advances_of k) s = Inr (ints_of (Array rs), s')"
      using Randint Some n by simp
    ultimately show ?thesis using m' by (intro exI [of _ "Array rs"] exI [of _ s']) simp
  qed
qed

lemma PyLCG_run_as_advance_n:
  "py_m s \<noteq> 0 \<Longrightarrow>
   \<exists>ws s'. PyLCG_run s ks = Inr (map stored ws, s') \<and>
     PyLCG_advance_n (n_advances ks) s = Inr (returned ws, s')"
proof (induction ks arbitrary: s)
  case Nil
  have "PyLCG_run s [] = Inr (map stored [], s)"
    "PyLCG_advance_n (n_advances []) s = Inr (returned [], s)"
    by (simp_all add: n_advances_def returned_def)
  then show ?case by blast
next
  case (Cons k ks)
  from PyLCG_call_as_advance_n [OF Cons.prems, of k] obtain w s1 where
    k: "PyLCG_call s k = Inr (stored w, s1)"
    and kn: "PyLCG_advance_n (advances_of k) s = Inr (ints_of w, s1)"
    and m1: "py_m s1 = py_m s"
    by blast
  have "py_m s1 \<noteq> 0" using m1 Cons.prems by simp
  from Cons.IH [OF this] obtain ws s2 where
    r: "PyLCG_run s1 ks = Inr (map stored ws, s2)"
    and rn: "PyLCG_advance_n (n_advances ks) s1 = Inr (returned ws, s2)"
    by blast
  have "n_advances (k # ks) = advances_of k + n_advances ks"
    by (simp add: n_advances_def)
  then have "PyLCG_advance_n (n_advances (k # ks)) s = Inr (returned (w # ws), s2)"
    using kn rn by (simp add: PyLCG_advance_n_add returned_def)
  moreover have "PyLCG_run s (k # ks) = Inr (map stored (w # ws), s2)"
    using k r by simp
  ultimately show ?case by blast
qed

lemma returned_map_Scalar: "returned (map Scalar rs) = rs"
  by (induction rs) (simp_all add: returned_def)

lemma PyLCG_run_replicate_None:
  "PyLCG_run s (replicate n (Randint None)) =
     (case PyLCG_advance_n n s of
        Inl e \<Rightarrow> Inl e
      | Inr (rs, s') \<Rightarrow> Inr (map Scalar rs, s'))"
  by (induction n arbitrary: s)
     (auto simp: PyLCG_call_def PyLCG_randint_def split: sum.splits)

subsection \<open>Facts about \<open>CyLCG\<close> with the default parameters\<close>

lemma sint_long_of_int:
  "fits_long k \<Longrightarrow> sint (word_of_int k :: long) = k"
  by (simp add: fits_long_def sint_sbintrunc' signed_take_bit_int_eq_self)

lemma smod_nonneg:
  "0 \<le> k \<Longrightarrow> 0 < l \<Longrightarrow> (k::int) smod l = k mod l"
  by (cases "k = 0") (simp_all add: signed_modulo_int_def)

lemma c_rem_default:
  assumes "in_range default_m X"
  shows "c_rem (word_of_int default_a * word_of_int X + word_of_int default_c)
           (word_of_int default_m) =
         word_of_int ((default_a * X + default_c) mod default_m)"
proof -
  let ?K = "default_a * X + default_c"
  have X: "0 \<le> X" "X < 2 ^ 32"
    using assms by (simp_all add: in_range_def default_m_def)
  have "default_a * X \<le> default_a * 2 ^ 32"
    using X by (intro mult_left_mono) (simp_all add: default_a_def)
  then have K: "0 \<le> ?K" "?K < 2 ^ 63"
    using X by (simp_all add: default_a_def default_c_def)
  have sK: "sint (word_of_int ?K :: long) = ?K"
    using K by (intro sint_long_of_int) (simp add: fits_long_def)
  have sM: "sint (word_of_int default_m :: long) = default_m"
    by (intro sint_long_of_int) (simp add: fits_long_def default_m_def)
  have "?K smod default_m = ?K mod default_m"
    using K by (intro smod_nonneg) (simp_all add: default_m_def)
  then show ?thesis
    using sK sM by (simp add: c_rem_def)
qed

lemma sim_default_advance:
  assumes "sim_default p q"
  shows "\<exists>p' q'. PyLCG_advance p = Inr (py_x p, p') \<and>
           CyLCG_advance q = (cy_x q, q') \<and> sint (cy_x q) = py_x p \<and> sim_default p' q'"
proof -
  let ?p' = "p\<lparr>py_x := (py_a p * py_x p + py_c p) mod py_m p\<rparr>"
  let ?q' = "q\<lparr>cy_x := c_rem (cy_a q * cy_x q + cy_c q) (cy_m q)\<rparr>"
  have rng: "in_range default_m (py_x p)" and m: "py_m p = default_m"
    using assms by (simp_all add: sim_default_def)
  have "py_m p \<noteq> 0" using m by (simp add: default_m_def)
  then have py: "PyLCG_advance p = Inr (py_x p, ?p')"
    by (rule PyLCG_advance_Inr)
  have cy: "CyLCG_advance q = (cy_x q, ?q')"
    by (simp add: CyLCG_advance_def)
  have "fits_long (py_x p)"
    using rng by (simp add: in_range_def default_m_def fits_long_def)
  then have out: "sint (cy_x q) = py_x p"
    using assms by (simp add: sim_default_def sint_long_of_int)
  have "in_range default_m ((default_a * py_x p + default_c) mod default_m)"
    by (simp add: in_range_def default_m_def)
  then have "sim_default ?p' ?q'"
    using assms c_rem_default [OF rng] by (simp add: sim_default_def)
  with py cy out show ?thesis by blast
qed

lemma sim_default_advance_n:
  "sim_default p q \<Longrightarrow>
   \<exists>rs p' ws q'. PyLCG_advance_n n p = Inr (rs, p') \<and> CyLCG_advance_n n q = (ws, q') \<and>
     map sint ws = rs \<and> sim_default p' q'"
proof (induction n arbitrary: p q)
  case 0
  then show ?case by simp
next
  case (Suc n)
  from sim_default_advance [OF Suc.prems] obtain p1 q1 where
    a: "PyLCG_advance p = Inr (py_x p, p1)" "CyLCG_advance q = (cy_x q, q1)"
       "sint (cy_x q) = py_x p" and s1: "sim_default p1 q1"
    by blast
  from Suc.IH [OF s1] obtain rs p' ws q' where
    "PyLCG_advance_n n p1 = Inr (rs, p')" "CyLCG_advance_n n q1 = (ws, q')"
    "map sint ws = rs" "sim_default p' q'"
    by blast
  with a show ?case by simp
qed

lemma sim_default_call:
  assumes s: "sim_default p q" and ok: "size_ok k"
  shows "\<exists>v p' q'. PyLCG_call p k = Inr (v, p') \<and> CyLCG_call q k = Inr (v, q') \<and>
           sim_default p' q'"
proof (cases k)
  case Advance
  with sim_default_advance [OF s] show ?thesis
    by (auto simp: PyLCG_call_def CyLCG_call_def)
next
  case (Randint sz)
  show ?thesis
  proof (cases sz)
    case None
    with Randint sim_default_advance [OF s] show ?thesis
      by (auto simp: PyLCG_call_def CyLCG_call_def PyLCG_randint_def CyLCG_randint_def)
  next
    case (Some n)
    with Randint ok have n: "0 \<le> n" "fits_int n"
      by (simp_all add: fits_int_def)
    from sim_default_advance_n [OF s, of "nat n"] obtain rs p' ws q' where
      r: "PyLCG_advance_n (nat n) p = Inr (rs, p')" "CyLCG_advance_n (nat n) q = (ws, q')"
      "map sint ws = rs" "sim_default p' q'"
      by blast
    have pm: "0 < py_m p" "in_range (py_m p) (py_x p)" "py_m p \<le> 2 ^ 63"
      using s by (simp_all add: sim_default_def default_m_def)
    from PyLCG_advance_n_range [OF pm(1) pm(2) r(1)]
    have "list_all (in_range (py_m p)) rs" by simp
    then have "list_all fits_long rs"
      using pm(3) by (rule list_all_in_range_fits_long)
    then have "np_asarray rs = rs" by (rule np_asarray_fits_long)
    moreover have "n < 2 ^ 60" using n(2) by (simp add: fits_int_def)
    ultimately show ?thesis using Randint Some n r
      by (simp add: PyLCG_call_def CyLCG_call_def PyLCG_randint_def CyLCG_randint_def)
  qed
qed

lemma sim_default_run:
  "sim_default p q \<Longrightarrow> list_all size_ok ks \<Longrightarrow>
   \<exists>vs p' q'. PyLCG_run p ks = Inr (vs, p') \<and> CyLCG_run q ks = Inr (vs, q') \<and>
     sim_default p' q'"
proof (induction ks arbitrary: p q)
  case Nil
  then show ?case by simp
next
  case (Cons k ks)
  from Cons.prems(2) have ok: "size_ok k" "list_all size_ok ks" by simp_all
  from sim_default_call [OF Cons.prems(1) ok(1)] obtain v p1 q1 where
    k: "PyLCG_call p k = Inr (v, p1)" "CyLCG_call q k = Inr (v, q1)"
    and s1: "sim_default p1 q1"
    by blast
  from Cons.IH [OF s1 ok(2)] obtain vs p' q' where
    "PyLCG_run p1 ks = Inr (vs, p')" "CyLCG_run q1 ks = Inr (vs, q')" "sim_default p' q'"
    by blast
  with k show ?case by simp
qed

lemma sim_default_init:
  "\<exists>p q. PyLCG_init default_a default_c default_m default_seed = Inr p \<and>
     CyLCG_cinit default_a default_c default_m default_seed = Inr q \<and> sim_default p q"
  by (simp add: PyLCG_init_def CyLCG_cinit_def sim_default_def fits_long_def in_range_def
      default_a_def default_c_def default_m_def default_seed_def)

subsection \<open>Construction\<close>

text \<open>
  Claim C5. \<open>PyLCG(a, c, m, seed)\<close> raises exactly when \<open>m \<le> 0\<close>, and what it
  raises is the constructor's only error, \<open>ValueError\<close> (the specification's
  InvalidParameter). For every \<open>m > 0\<close> it returns the generator holding \<open>a\<close>, \<open>c\<close>,
  \<open>m\<close> and \<open>x = seed\<close>, whatever the signs of \<open>a\<close>, \<open>c\<close> and \<open>seed\<close>.
\<close>

theorem PyLCG_init_fails_iff:
  "(PyLCG_init a c m seed = Inl ValueError \<longleftrightarrow> m \<le> 0) \<and>
   ((\<exists>e. PyLCG_init a c m seed = Inl e) \<longleftrightarrow> m \<le> 0) \<and>
   (PyLCG_init a c m seed = Inr \<lparr>py_a = a, py_c = c, py_m = m, py_x = seed\<rparr> \<longleftrightarrow> 0 < m)"
  by (simp add: PyLCG_init_def)

theorem PyLCG_init_fails_iff_witness:
  "PyLCG_init (-2) (-3) 0 (-4) = Inl ValueError \<and>
   PyLCG_init (-2) (-3) (-9) (-4) = Inl ValueError \<and>
   PyLCG_init (-2) (-3) 9 (-4) = Inr \<lparr>py_a = -2, py_c = -3, py_m = 9, py_x = -4\<rparr>"
  using PyLCG_init_fails_iff [of "-2" "-3" 0 "-4"] PyLCG_init_fails_iff [of "-2" "-3" "-9" "-4"]
    PyLCG_init_fails_iff [of "-2" "-3" 9 "-4"]
  by simp

subsection \<open>One step\<close>

text \<open>
  Claim C3. With the default parameters and seed 0 the first two values returned, by
  \<open>_advance()\<close> or by \<open>randint()\<close>, are 0 and 1013904223. In general, on a
  generator whose modulus is not zero, a call returns the value \<open>x\<close> had before the
  call and leaves \<open>x = (a * x + c) mod m\<close>.
\<close>

theorem PyLCG_advance_returns_then_updates:
  "PyLCG_outputs default_a default_c default_m default_seed [Advance, Advance] =
     Inr [0, 1013904223] \<and>
   PyLCG_outputs default_a default_c default_m default_seed [Randint None, Randint None] =
     Inr [0, 1013904223] \<and>
   (py_m s \<noteq> 0 \<longrightarrow>
      PyLCG_advance s =
        Inr (py_x s, s\<lparr>py_x := (py_a s * py_x s + py_c s) mod py_m s\<rparr>) \<and>
      PyLCG_randint s None =
        Inr (Scalar (py_x s), s\<lparr>py_x := (py_a s * py_x s + py_c s) mod py_m s\<rparr>))"
  by (simp add: PyLCG_outputs_def PyLCG_init_def PyLCG_call_def PyLCG_randint_def
      PyLCG_advance_def returned_def default_a_def default_c_def default_m_def
      default_seed_def)

theorem PyLCG_advance_returns_then_updates_witness:
  "py_m \<lparr>py_a = 3, py_c = 4, py_m = 7, py_x = 2\<rparr> \<noteq> 0 \<and>
   PyLCG_advance \<lparr>py_a = 3, py_c = 4, py_m = 7, py_x = 2\<rparr> =
     Inr (2, \<lparr>py_a = 3, py_c = 4, py_m = 7, py_x = 3\<rparr>) \<and>
   PyLCG_randint \<lparr>py_a = 3, py_c = 4, py_m = 7, py_x = 2\<rparr> None =
     Inr (Scalar 2, \<lparr>py_a = 3, py_c = 4, py_m = 7, py_x = 3\<rparr>)"
  using PyLCG_advance_returns_then_updates [of "\<lparr>py_a = 3, py_c = 4, py_m = 7, py_x = 2\<rparr>"]
  by simp

text \<open>
  Claim C8. A call that returns leaves \<open>a\<close>, \<open>c\<close> and \<open>m\<close> as they were: the
  generator after the call is the generator before it with \<open>x\<close> replaced. Each
  \<open>_advance\<close> assigns \<open>(a * x + c) mod m\<close> to \<open>x\<close>. With a modulus other than
  zero every call returns.
\<close>

theorem PyLCG_frame:
  "(PyLCG_advance s = Inr (r, s1) \<longrightarrow>
      s1 = s\<lparr>py_x := (py_a s * py_x s + py_c s) mod py_m s\<rparr>) \<and>
   (PyLCG_call s k = Inr (v, s2) \<longrightarrow>
      s2 = s\<lparr>py_x := py_x s2\<rparr> \<and> py_a s2 = py_a s \<and> py_c s2 = py_c s \<and> py_m s2 = py_m s) \<and>
   (py_m s \<noteq> 0 \<longrightarrow> (\<exists>v' s'. PyLCG_call s k = Inr (v', s')))"
proof -
  have 1: "s1 = s\<lparr>py_x := (py_a s * py_x s + py_c s) mod py_m s\<rparr>"
    if "PyLCG_advance s = Inr (r, s1)"
    using PyLCG_advance_frame [OF that] by simp
  have 2: "s2 = s\<lparr>py_x := py_x s2\<rparr>" if c: "PyLCG_call s k = Inr (v, s2)"
  proof (cases k)
    case Advance
    with c obtain r' where "PyLCG_advance s = Inr (r', s2)"
      by (auto simp: PyLCG_call_def split: sum.splits)
    from PyLCG_advance_frame [OF this] show ?thesis by simp
  next
    case (Randint sz)
    show ?thesis
    proof (cases sz)
      case None
      with Randint c obtain r' where "PyLCG_advance s = Inr (r', s2)"
        by (auto simp: PyLCG_call_def PyLCG_randint_def split: sum.splits)
      from PyLCG_advance_frame [OF this] show ?thesis by simp
    next
      case (Some n)
      with Randint c obtain rs where "PyLCG_advance_n (nat n) s = Inr (rs, s2)"
        by (auto simp: PyLCG_call_def PyLCG_randint_def split: sum.splits)
      then show ?thesis by (rule PyLCG_advance_n_frame)
    qed
  qed
  have 5: "py_a s2 = py_a s \<and> py_c s2 = py_c s \<and> py_m s2 = py_m s"
    if c: "PyLCG_call s k = Inr (v, s2)"
  proof -
    from 2 [OF c] have e: "s2 = s\<lparr>py_x := py_x s2\<rparr>" .
    have "py_a (s\<lparr>py_x := py_x s2\<rparr>) = py_a s \<and> py_c (s\<lparr>py_x := py_x s2\<rparr>) = py_c s \<and>
          py_m (s\<lparr>py_x := py_x s2\<rparr>) = py_m s" by simp
    with e show ?thesis by simp
  qed
  have 3: "\<exists>v' s'. PyLCG_call s k = Inr (v', s')" if "py_m s \<noteq> 0"
    using PyLCG_call_as_advance_n [OF that, of k] by blast
  from 1 2 5 3 show ?thesis by blast
qed

theorem PyLCG_frame_witness:
  "PyLCG_advance \<lparr>py_a = 3, py_c = 4, py_m = 7, py_x = 2\<rparr> =
     Inr (2, \<lparr>py_a = 3, py_c = 4, py_m = 7, py_x = 3\<rparr>) \<and>
   PyLCG_call \<lparr>py_a = 3, py_c = 4, py_m = 7, py_x = 2\<rparr> (Randint (Some 2)) =
     Inr (Array [2, 3], \<lparr>py_a = 3, py_c = 4, py_m = 7, py_x = 6\<rparr>) \<and>
   py_m \<lparr>py_a = 3, py_c = 4, py_m = 7, py_x = 2\<rparr> \<noteq> 0 \<and>
   \<lparr>py_a = 3, py_c = 4, py_m = 7, py_x = 6\<rparr> =
     \<lparr>py_a = 3, py_c = 4, py_m = 7, py_x = 2\<rparr>\<lparr>py_x := py_x \<lparr>py_a = 3, py_c = 4, py_m = 7, py_x = 6\<rparr>\<rparr>"
proof -
  have a: "PyLCG_advance \<lparr>py_a = 3, py_c = 4, py_m = 7, py_x = 2\<rparr> =
     Inr (2, \<lparr>py_a = 3, py_c = 4, py_m = 7, py_x = 3\<rparr>)"
    by (simp add: PyLCG_advance_def)
  have c: "PyLCG_call \<lparr>py_a = 3, py_c = 4, py_m = 7, py_x = 2\<rparr> (Randint (Some 2)) =
     Inr (Array [2, 3], \<lparr>py_a = 3, py_c = 4, py_m = 7, py_x = 6\<rparr>)"
    by (simp add: PyLCG_call_def PyLCG_randint_def PyLCG_advance_def eval_nat_numeral
        np_asarray_fits_long fits_long_def)
  from PyLCG_frame [of "\<lparr>py_a = 3, py_c = 4, py_m = 7, py_x = 2\<rparr>" 2
      "\<lparr>py_a = 3, py_c = 4, py_m = 7, py_x = 3\<rparr>" "Randint (Some 2)" "Array [2, 3]"
      "\<lparr>py_a = 3, py_c = 4, py_m = 7, py_x = 6\<rparr>"] a c
  show ?thesis by simp
qed

subsection \<open>Batches\<close>

text \<open>
  Claim C4 has \<open>randint(size=N)\<close> return the values of \<open>N\<close> calls of \<open>randint()\<close>
  element for element. On the generator with \<open>a = 1\<close>, \<open>c = 0\<close>, \<open>m = 2 ^ 64\<close> and
  seed \<open>-1\<close> two calls of \<open>randint()\<close> return \<open>-1\<close> and \<open>2 ^ 64 - 1\<close>, while
  \<open>randint(size=2)\<close> returns a \<open>float64\<close> array holding \<open>-1\<close> and \<open>2 ^ 64\<close>.
\<close>

theorem PyLCG_randint_batch_rounds:
  "PyLCG_outputs 1 0 (2 ^ 64) (- 1) [Randint None, Randint None] = Inr [- 1, 2 ^ 64 - 1] \<and>
   PyLCG_outputs 1 0 (2 ^ 64) (- 1) [Randint (Some 2)] = Inr [- 1, 2 ^ 64]"
  by code_simp

text \<open>
  Claim C4, amended. For \<open>N \<ge> 0\<close> and any generator \<open>s\<close>, \<open>randint(size=N)\<close>
  raises when \<open>N\<close> calls of \<open>randint()\<close> in a row from \<open>s\<close> raise, and otherwise
  ends in the same generator and returns an array of exactly \<open>N\<close> elements: what
  \<open>np.asarray\<close> makes of the \<open>N\<close> values of those calls, in their order. The
  elements are those values themselves unless the array is promoted to \<open>float64\<close>,
  and they are in particular when \<open>0 < m \<le> 2 ^ 63\<close> and \<open>x\<close> fits 64 signed bits.
  The call returns whenever the modulus is not zero, and for \<open>N = 0\<close> it returns
  the empty array and the generator unchanged.
\<close>

theorem PyLCG_randint_batch_stores_sequential:
  assumes "0 \<le> N"
  shows "PyLCG_randint s (Some N) =
           (case PyLCG_run s (replicate (nat N) (Randint None)) of
              Inl e \<Rightarrow> Inl e
            | Inr (vs, s') \<Rightarrow> Inr (Array (np_asarray (returned vs)), s')) \<and>
         (\<forall>v s'. PyLCG_randint s (Some N) = Inr (v, s') \<longrightarrow>
            (\<exists>rs. PyLCG_run s (replicate (nat N) (Randint None)) = Inr (map Scalar rs, s') \<and>
               v = Array (np_asarray rs) \<and> int (length (np_asarray rs)) = N \<and>
               int (length rs) = N \<and>
               (\<not> promotes_to_float64 rs \<longrightarrow> v = Array rs) \<and>
               (0 < py_m s \<and> py_m s \<le> 2 ^ 63 \<and> fits_long (py_x s) \<longrightarrow> v = Array rs))) \<and>
         (py_m s \<noteq> 0 \<longrightarrow> (\<exists>rs s'. PyLCG_randint s (Some N) = Inr (Array rs, s'))) \<and>
         PyLCG_randint s (Some 0) = Inr (Array [], s)"
proof -
  have 1: "PyLCG_randint s (Some N) =
           (case PyLCG_run s (replicate (nat N) (Randint None)) of
              Inl e \<Rightarrow> Inl e
            | Inr (vs, s') \<Rightarrow> Inr (Array (np_asarray (returned vs)), s'))"
    by (simp add: PyLCG_randint_def PyLCG_run_replicate_None returned_map_Scalar
        split: sum.splits)
  have 2: "\<exists>rs. PyLCG_run s (replicate (nat N) (Randint None)) = Inr (map Scalar rs, s') \<and>
               v = Array (np_asarray rs) \<and> int (length (np_asarray rs)) = N \<and>
               int (length rs) = N \<and>
               (\<not> promotes_to_float64 rs \<longrightarrow> v = Array rs) \<and>
               (0 < py_m s \<and> py_m s \<le> 2 ^ 63 \<and> fits_long (py_x s) \<longrightarrow> v = Array rs)"
    if "PyLCG_randint s (Some N) = Inr (v, s')" for v s'
  proof -
    from that obtain rs where
      n: "PyLCG_advance_n (nat N) s = Inr (rs, s')" and v: "v = Array (np_asarray rs)"
      by (auto simp: PyLCG_randint_def split: sum.splits)
    from PyLCG_advance_n_length [OF n] assms have len: "int (length rs) = N" by simp
    have run: "PyLCG_run s (replicate (nat N) (Randint None)) = Inr (map Scalar rs, s')"
      using n by (simp add: PyLCG_run_replicate_None)
    have exact: "v = Array rs" if "\<not> promotes_to_float64 rs"
      using v np_asarray_exact [OF that] by simp
    have small: "v = Array rs"
      if c: "0 < py_m s \<and> py_m s \<le> 2 ^ 63 \<and> fits_long (py_x s)"
    proof (cases "nat N")
      case 0
      with n have "rs = []" by simp
      with v show ?thesis by (simp add: np_asarray_fits_long)
    next
      case (Suc k)
      with n have "PyLCG_advance_n (Suc k) s = Inr (rs, s')" by simp
      from PyLCG_advance_n_first [OF _ this] c obtain rest where
        rs: "rs = py_x s # rest" and rest: "list_all (in_range (py_m s)) rest"
        by blast
      from rest c have "list_all fits_long rest"
        by (intro list_all_in_range_fits_long [of "py_m s"]) simp_all
      with rs c have "list_all fits_long rs" by simp
      from np_asarray_fits_long [OF this] v show ?thesis by simp
    qed
    have "int (length (np_asarray rs)) = N"
      using len by (simp add: length_np_asarray)
    with run v len exact small show ?thesis
      by (intro exI [of _ rs]) blast
  qed
  have 3: "\<exists>rs s'. PyLCG_randint s (Some N) = Inr (Array rs, s')" if "py_m s \<noteq> 0"
  proof -
    from PyLCG_advance_n_total [OF that, of "nat N"] obtain rs s' where
      "PyLCG_advance_n (nat N) s = Inr (rs, s')" by blast
    then show ?thesis by (simp add: PyLCG_randint_def)
  qed
  have 4: "PyLCG_randint s (Some 0) = Inr (Array [], s)"
    by (simp add: PyLCG_randint_def np_asarray_fits_long)
  from 1 2 3 4 show ?thesis by blast
qed

theorem PyLCG_randint_batch_stores_sequential_witness:
  "(0::int) \<le> 2 \<and> py_m \<lparr>py_a = 3, py_c = 4, py_m = 7, py_x = 2\<rparr> \<noteq> 0 \<and>
   \<not> promotes_to_float64 [2, 3] \<and> (0::int) < 7 \<and> (7::int) \<le> 2 ^ 63 \<and> fits_long 2 \<and>
   PyLCG_randint \<lparr>py_a = 3, py_c = 4, py_m = 7, py_x = 2\<rparr> (Some 2) =
     Inr (Array [2, 3], \<lparr>py_a = 3, py_c = 4, py_m = 7, py_x = 6\<rparr>) \<and>
   PyLCG_run \<lparr>py_a = 3, py_c = 4, py_m = 7, py_x = 2\<rparr> (replicate (nat 2) (Randint None)) =
     Inr (map Scalar [2, 3], \<lparr>py_a = 3, py_c = 4, py_m = 7, py_x = 6\<rparr>)"
proof -
  have r: "PyLCG_randint \<lparr>py_a = 3, py_c = 4, py_m = 7, py_x = 2\<rparr> (Some 2) =
     Inr (Array [2, 3], \<lparr>py_a = 3, py_c = 4, py_m = 7, py_x = 6\<rparr>)"
    by (simp add: PyLCG_randint_def PyLCG_advance_def eval_nat_numeral
        np_asarray_fits_long fits_long_def)
  have n: "(0::int) \<le> 2" by simp
  have p: "\<not> promotes_to_float64 [2, 3]" "fits_long 2"
    by (simp_all add: promotes_to_float64_def fits_long_def)
  from PyLCG_randint_batch_stores_sequential [OF n, of "\<lparr>py_a = 3, py_c = 4, py_m = 7, py_x = 2\<rparr>"] r p
  show ?thesis by (simp add: np_asarray_fits_long fits_long_def)
qed

text \<open>
  Claim C2 names 1084822493 as the second value of \<open>randint(size=3)\<close> on the
  generator with the default parameters and seed 42. The recurrence gives another
  number, so the array is not the one the claim describes.
\<close>

theorem PyLCG_randint_3_seed_42_not_1084822493:
  "PyLCG_outputs 1664525 1013904223 (2 ^ 32) 42 [Randint (Some 3)] \<noteq>
     Inr [42, 1084822493, (1664525 * 1084822493 + 1013904223) mod 2 ^ 32] \<and>
   (1664525 * 42 + 1013904223) mod 2 ^ 32 \<noteq> (1084822493::int)"
  by (simp add: PyLCG_outputs_def PyLCG_init_def PyLCG_call_def PyLCG_randint_def
      PyLCG_advance_def returned_def eval_nat_numeral np_asarray_fits_long fits_long_def)

text \<open>
  Claim C2, amended. On the generator constructed with \<open>a = 1664525\<close>,
  \<open>c = 1013904223\<close>, \<open>m = 2 ^ 32\<close> and seed 42, \<open>randint(size=3)\<close> returns 42,
  then \<open>(1664525 * 42 + 1013904223) mod 2 ^ 32 = 1083814273\<close>, then the recurrence
  applied to that value, 378494188.
\<close>

theorem PyLCG_randint_3_seed_42:
  "PyLCG_init 1664525 1013904223 (2 ^ 32) 42 =
     Inr \<lparr>py_a = 1664525, py_c = 1013904223, py_m = 2 ^ 32, py_x = 42\<rparr> \<and>
   PyLCG_randint \<lparr>py_a = 1664525, py_c = 1013904223, py_m = 2 ^ 32, py_x = 42\<rparr> (Some 3) =
     Inr (Array [42, 1083814273, 378494188],
          \<lparr>py_a = 1664525, py_c = 1013904223, py_m = 2 ^ 32, py_x = 2479403867\<rparr>) \<and>
   (1664525 * 42 + 1013904223) mod 2 ^ 32 = (1083814273::int) \<and>
   (1664525 * 1083814273 + 1013904223) mod 2 ^ 32 = (378494188::int)"
  by (simp add: PyLCG_init_def PyLCG_randint_def PyLCG_advance_def eval_nat_numeral
      np_asarray_fits_long fits_long_def)

subsection \<open>The range of the returned values\<close>

text \<open>
  Claim C1 puts every returned value in \<open>[0, m)\<close> for every seed. The first value
  returned is the seed as given: with \<open>m = 5\<close> and seed 7 it is 7.
\<close>

theorem PyLCG_first_value_out_of_range:
  "PyLCG_outputs 1 0 5 7 [Advance, Advance] = Inr [7, 2] \<and> \<not> in_range 5 7"
  by (simp add: PyLCG_outputs_def PyLCG_init_def PyLCG_call_def PyLCG_advance_def
      returned_def in_range_def)

text \<open>
  Claim C1, amended. For \<open>m > 0\<close> and any integers \<open>a\<close>, \<open>c\<close>, \<open>seed\<close>,
  construction succeeds and no call raises. The first value \<open>_advance\<close> produces is
  the seed itself and every value it produces after that lies in \<open>[0, m)\<close>.
  \<open>_advance()\<close> and \<open>randint()\<close> return these values as they are, and
  \<open>randint(size=n)\<close> returns what \<open>np.asarray\<close> makes of them (\<open>stored\<close>). If
  \<open>m \<le> 2 ^ 63\<close> and the seed fits 64 signed bits, \<open>np.asarray\<close> changes nothing:
  the values returned are the seed followed by values in \<open>[0, m)\<close>.
\<close>

theorem PyLCG_returned_after_first_in_range:
  assumes "0 < m"
  shows "\<exists>g ws g'. PyLCG_init a c m seed = Inr g \<and>
           PyLCG_run g ks = Inr (map stored ws, g') \<and>
           PyLCG_outputs a c m seed ks = Inr (returned (map stored ws)) \<and>
           (returned ws = [] \<or> (\<exists>rest. returned ws = seed # rest \<and> list_all (in_range m) rest)) \<and>
           (m \<le> 2 ^ 63 \<and> fits_long seed \<longrightarrow> map stored ws = ws)"
proof -
  let ?g = "\<lparr>py_a = a, py_c = c, py_m = m, py_x = seed\<rparr>"
  have m: "py_m ?g \<noteq> 0" "0 < py_m ?g" using assms by simp_all
  have i: "PyLCG_init a c m seed = Inr ?g"
    using assms by (rule PyLCG_init_Inr)
  from PyLCG_run_as_advance_n [OF m(1), of ks] obtain ws g' where
    r: "PyLCG_run ?g ks = Inr (map stored ws, g')"
    and rn: "PyLCG_advance_n (n_advances ks) ?g = Inr (returned ws, g')"
    by blast
  have out: "PyLCG_outputs a c m seed ks = Inr (returned (map stored ws))"
    using i r by (simp add: PyLCG_outputs_def)
  have raw: "returned ws = [] \<or>
             (\<exists>rest. returned ws = seed # rest \<and> list_all (in_range m) rest)"
  proof (cases "n_advances ks")
    case 0
    with rn show ?thesis by simp
  next
    case (Suc n)
    with rn have "PyLCG_advance_n (Suc n) ?g = Inr (returned ws, g')" by simp
    from PyLCG_advance_n_first [OF m(2) this] show ?thesis by auto
  qed
  have exact: "map stored ws = ws" if c: "m \<le> 2 ^ 63 \<and> fits_long seed"
  proof -
    from raw have "list_all fits_long (returned ws)"
    proof
      assume "returned ws = []"
      then show ?thesis by simp
    next
      assume "\<exists>rest. returned ws = seed # rest \<and> list_all (in_range m) rest"
      then obtain rest where
        rs: "returned ws = seed # rest" and rest: "list_all (in_range m) rest"
        by blast
      from rest c have "list_all fits_long rest"
        by (intro list_all_in_range_fits_long [of m]) simp_all
      with rs c show ?thesis by simp
    qed
    then show ?thesis by (rule stored_fits_long)
  qed
  from i r out raw exact show ?thesis by blast
qed

theorem PyLCG_returned_after_first_in_range_witness:
  "(0::int) < 5 \<and> (5::int) \<le> 2 ^ 63 \<and> fits_long 7 \<and>
   PyLCG_outputs 1 0 5 7 [Advance, Randint (Some 2)] = Inr [7, 2, 2] \<and>
   (\<exists>g ws g'. PyLCG_init 1 0 5 7 = Inr g \<and>
      PyLCG_run g [Advance, Randint (Some 2)] = Inr (map stored ws, g') \<and>
      (returned ws = [] \<or> (\<exists>rest. returned ws = 7 # rest \<and> list_all (in_range 5) rest)) \<and>
      map stored ws = ws)"
proof -
  have o: "PyLCG_outputs 1 0 5 7 [Advance, Randint (Some 2)] = Inr [7, 2, 2]"
    by (simp add: PyLCG_outputs_def PyLCG_init_def PyLCG_call_def PyLCG_randint_def
        PyLCG_advance_def returned_def eval_nat_numeral np_asarray_fits_long fits_long_def)
  have h: "(0::int) < 5" "(5::int) \<le> 2 ^ 63 \<and> fits_long 7"
    by (simp_all add: fits_long_def)
  from PyLCG_returned_after_first_in_range [OF h(1), of 1 0 7 "[Advance, Randint (Some 2)]"] h o
  show ?thesis by auto
qed

text \<open>
  Claim C9 puts every returned value in \<open>[0, m)\<close> once the seed is. With \<open>a = 1\<close>,
  \<open>c = 2 ^ 64 - 1\<close>, \<open>m = 2 ^ 64\<close> and seed 0, \<open>_advance\<close> produces 0 and
  \<open>2 ^ 64 - 1\<close>, and \<open>randint(size=2)\<close> returns them in a \<open>float64\<close> array, where the
  second is \<open>2 ^ 64\<close>, which is \<open>m\<close>.
\<close>

theorem PyLCG_batch_value_rounded_to_m:
  "(0::int) < 2 ^ 64 \<and> in_range (2 ^ 64) 0 \<and>
   PyLCG_outputs 1 (2 ^ 64 - 1) (2 ^ 64) 0 [Randint (Some 2)] = Inr [0, 2 ^ 64] \<and>
   \<not> in_range (2 ^ 64) (2 ^ 64)"
  by code_simp

text \<open>
  Claim C9, amended. If \<open>m > 0\<close> and the seed lies in \<open>[0, m)\<close>, then construction
  succeeds, no call raises and, after any sequence of calls, \<open>x\<close> lies in \<open>[0, m)\<close>.
  Every value \<open>_advance\<close> produces lies in \<open>[0, m)\<close> and the first is the seed;
  so does every value \<open>_advance()\<close> or \<open>randint()\<close> returns. \<open>randint(size=n)\<close>
  returns what \<open>np.asarray\<close> makes of the values (\<open>stored\<close>), and that is the values
  themselves when \<open>m \<le> 2 ^ 63\<close>: then every value returned lies in \<open>[0, m)\<close>.
\<close>

theorem PyLCG_seed_in_range_invariant:
  assumes "0 < m" and "in_range m seed"
  shows "\<exists>g ws g'. PyLCG_init a c m seed = Inr g \<and>
           PyLCG_run g ks = Inr (map stored ws, g') \<and>
           in_range m (py_x g') \<and> list_all (in_range m) (returned ws) \<and>
           (returned ws = [] \<or> hd (returned ws) = seed) \<and>
           (\<forall>r. Scalar r \<in> set (map stored ws) \<longrightarrow> in_range m r) \<and>
           (m \<le> 2 ^ 63 \<longrightarrow>
              map stored ws = ws \<and> list_all (in_range m) (returned (map stored ws)))"
proof -
  let ?g = "\<lparr>py_a = a, py_c = c, py_m = m, py_x = seed\<rparr>"
  have m: "py_m ?g \<noteq> 0" "0 < py_m ?g" "in_range (py_m ?g) (py_x ?g)"
    using assms by simp_all
  have i: "PyLCG_init a c m seed = Inr ?g"
    using assms(1) by (rule PyLCG_init_Inr)
  from PyLCG_run_as_advance_n [OF m(1), of ks] obtain ws g' where
    r: "PyLCG_run ?g ks = Inr (map stored ws, g')"
    and rn: "PyLCG_advance_n (n_advances ks) ?g = Inr (returned ws, g')"
    by blast
  from PyLCG_advance_n_range [OF m(2) m(3) rn]
  have rng: "list_all (in_range m) (returned ws)" "in_range m (py_x g')"
    by simp_all
  have hd: "returned ws = [] \<or> hd (returned ws) = seed"
  proof (cases "n_advances ks")
    case 0
    with rn show ?thesis by simp
  next
    case (Suc n)
    with rn have "PyLCG_advance_n (Suc n) ?g = Inr (returned ws, g')" by simp
    from PyLCG_advance_n_first [OF m(2) this] show ?thesis by auto
  qed
  have sc: "in_range m r" if "Scalar r \<in> set (map stored ws)" for r
    using Scalar_in_stored [OF that] rng(1) by (simp add: list_all_iff)
  have exact: "map stored ws = ws \<and> list_all (in_range m) (returned (map stored ws))"
    if c: "m \<le> 2 ^ 63"
  proof -
    from rng(1) c have "list_all fits_long (returned ws)"
      by (rule list_all_in_range_fits_long)
    then have "map stored ws = ws" by (rule stored_fits_long)
    with rng(1) show ?thesis by simp
  qed
  from i r rng hd sc exact show ?thesis by blast
qed

theorem PyLCG_seed_in_range_invariant_witness:
  "(0::int) < 5 \<and> in_range 5 3 \<and> (5::int) \<le> 2 ^ 63 \<and>
   PyLCG_run \<lparr>py_a = 2, py_c = 1, py_m = 5, py_x = 3\<rparr> [Randint (Some 2), Advance] =
     Inr ([Array [3, 2], Scalar 0], \<lparr>py_a = 2, py_c = 1, py_m = 5, py_x = 1\<rparr>) \<and>
   (\<exists>g ws g'. PyLCG_init 2 1 5 3 = Inr g \<and>
      PyLCG_run g [Randint (Some 2), Advance] = Inr (map stored ws, g') \<and>
      in_range 5 (py_x g') \<and> list_all (in_range 5) (returned ws) \<and>
      (returned ws = [] \<or> hd (returned ws) = 3) \<and>
      map stored ws = ws \<and> list_all (in_range 5) (returned (map stored ws)))"
proof -
  have o: "PyLCG_run \<lparr>py_a = 2, py_c = 1, py_m = 5, py_x = 3\<rparr> [Randint (Some 2), Advance] =
     Inr ([Array [3, 2], Scalar 0], \<lparr>py_a = 2, py_c = 1, py_m = 5, py_x = 1\<rparr>)"
    by (simp add: PyLCG_call_def PyLCG_randint_def PyLCG_advance_def eval_nat_numeral
        np_asarray_fits_long fits_long_def)
  have h: "(0::int) < 5" "in_range 5 3" "(5::int) \<le> 2 ^ 63"
    by (simp_all add: in_range_def)
  from PyLCG_seed_in_range_invariant [OF h(1) h(2), of 2 1 "[Randint (Some 2), Advance]"] h o
  show ?thesis by auto
qed

subsection \<open>Determinism\<close>

text \<open>
  Claim C6. Two generators constructed with the same \<open>(a, c, m, seed)\<close> answer the
  same sequence of calls with the same results, and both do answer it.
\<close>

theorem PyLCG_deterministic:
  assumes "PyLCG_init a c m seed = Inr g1" and "PyLCG_init a c m seed = Inr g2"
  shows "\<exists>vs g'. PyLCG_run g1 ks = Inr (vs, g') \<and> PyLCG_run g2 ks = Inr (vs, g')"
proof -
  have "g2 = g1" using assms by simp
  have "py_m g1 \<noteq> 0" using assms(1) by (auto simp: PyLCG_init_def split: if_splits)
  from PyLCG_run_as_advance_n [OF this, of ks] obtain ws g' where
    "PyLCG_run g1 ks = Inr (map stored ws, g')" by blast
  with \<open>g2 = g1\<close> show ?thesis by blast
qed

theorem PyLCG_deterministic_witness:
  "PyLCG_init 3 4 7 5 = Inr \<lparr>py_a = 3, py_c = 4, py_m = 7, py_x = 5\<rparr> \<and>
   (\<exists>vs g'. PyLCG_run \<lparr>py_a = 3, py_c = 4, py_m = 7, py_x = 5\<rparr> [Advance, Randint (Some 2)] = Inr (vs, g'))"
proof -
  have i: "PyLCG_init 3 4 7 5 = Inr \<lparr>py_a = 3, py_c = 4, py_m = 7, py_x = 5\<rparr>"
    by (simp add: PyLCG_init_def)
  from PyLCG_deterministic [OF i i, of "[Advance, Randint (Some 2)]"] i show ?thesis
    by blast
qed

subsection \<open>\<open>PyLCG\<close> against \<open>CyLCG\<close>\<close>

text \<open>
  Claim C7 is stated for every sequence of calls. On \<open>randint(size=-1)\<close> the two
  classes part: \<open>PyLCG\<close> returns an empty array, \<open>CyLCG\<close> raises \<open>ValueError\<close>.
\<close>

theorem PyLCG_CyLCG_negative_size_differ:
  "PyLCG_outputs default_a default_c default_m default_seed [Randint (Some (- 1))] = Inr [] \<and>
   CyLCG_outputs default_a default_c default_m default_seed [Randint (Some (- 1))] =
     Inl ValueError"
  by (simp add: PyLCG_outputs_def PyLCG_init_def PyLCG_call_def PyLCG_randint_def
      CyLCG_outputs_def CyLCG_cinit_def CyLCG_call_def CyLCG_randint_def
      fits_long_def returned_def np_asarray_fits_long
      default_a_def default_c_def default_m_def default_seed_def)

text \<open>
  A size beyond the C \<open>int\<close> range also separates them: \<open>PyLCG\<close> returns that many
  values, \<open>CyLCG\<close> raises.
\<close>

lemma CyLCG_randint_size_too_large:
  "CyLCG_outputs default_a default_c default_m default_seed [Randint (Some (2 ^ 31))] =
     Inl OverflowError \<and>
   (\<exists>vs. PyLCG_outputs default_a default_c default_m default_seed [Randint (Some (2 ^ 31))] =
      Inr vs \<and> length vs = 2 ^ 31)"
proof -
  let ?g = "\<lparr>py_a = default_a, py_c = default_c, py_m = default_m, py_x = default_seed\<rparr>"
  let ?ks = "[Randint (Some (2 ^ 31))]"
  have cy: "CyLCG_outputs default_a default_c default_m default_seed ?ks = Inl OverflowError"
    by (simp add: CyLCG_outputs_def CyLCG_cinit_def CyLCG_call_def CyLCG_randint_def
        fits_long_def fits_int_def default_a_def default_c_def default_m_def default_seed_def)
  have m: "py_m ?g \<noteq> 0" by (simp add: default_m_def)
  from PyLCG_run_as_advance_n [OF m, of ?ks] obtain ws g' where
    r: "PyLCG_run ?g ?ks = Inr (map stored ws, g')"
    and rn: "PyLCG_advance_n (n_advances ?ks) ?g = Inr (returned ws, g')"
    by blast
  have "length (returned ws) = 2 ^ 31"
    using PyLCG_advance_n_length [OF rn] by (simp add: n_advances_def)
  then have len: "length (returned (map stored ws)) = 2 ^ 31"
    by (simp add: length_returned_stored)
  have "PyLCG_outputs default_a default_c default_m default_seed ?ks =
          Inr (returned (map stored ws))"
    using r by (simp add: PyLCG_outputs_def PyLCG_init_def default_m_def)
  with cy len show ?thesis by blast
qed

text \<open>
  Claim C7, amended. With the default parameters and seed 0, for every sequence of
  calls in which each \<open>size\<close> is omitted or satisfies \<open>0 \<le> size < 2 ^ 31\<close>, both
  constructors succeed, neither class raises, and \<open>PyLCG\<close> and \<open>CyLCG\<close> return the
  same results call for call.
\<close>

theorem PyLCG_CyLCG_default_agree:
  assumes "list_all size_ok ks"
  shows "\<exists>p q vs p' q'.
           PyLCG_init default_a default_c default_m default_seed = Inr p \<and>
           CyLCG_cinit default_a default_c default_m default_seed = Inr q \<and>
           PyLCG_run p ks = Inr (vs, p') \<and> CyLCG_run q ks = Inr (vs, q')"
proof -
  from sim_default_init obtain p q where
    i: "PyLCG_init default_a default_c default_m default_seed = Inr p"
       "CyLCG_cinit default_a default_c default_m default_seed = Inr q"
    and s: "sim_default p q"
    by blast
  from sim_default_run [OF s assms] i show ?thesis by blast
qed

theorem PyLCG_CyLCG_default_agree_witness:
  "list_all size_ok [Advance, Randint None, Randint (Some 3)] \<and>
   (\<exists>p q vs p' q'.
           PyLCG_init default_a default_c default_m default_seed = Inr p \<and>
           CyLCG_cinit default_a default_c default_m default_seed = Inr q \<and>
           PyLCG_run p [Advance, Randint None, Randint (Some 3)] = Inr (vs, p') \<and>
           CyLCG_run q [Advance, Randint None, Randint (Some 3)] = Inr (vs, q'))"
proof -
  have ok: "list_all size_ok [Advance, Randint None, Randint (Some 3)]" by simp
  from PyLCG_CyLCG_default_agree [OF ok] ok show ?thesis by blast
qed


end
